theory Spec2Isabelle
  imports Complex_Main "HOL-Library.Log_Nat"
begin

section \<open>Python values and exceptions\<close>

text \<open>
  The converters are Python classes whose methods take a keyword-options bag
  (\<^verbatim>\<open>**options\<close>). Exceptions are modelled as values of \<open>pyerr\<close>; a computation that may
  raise returns \<open>pyerr + 'a\<close> with \<open>Inl\<close> the exception.

  Strings are lists of 8-bit characters and stand for ASCII text; Python's integers are
  unbounded and are modelled by \<open>int\<close>.
\<close>

datatype pyerr =
    ValueError | TypeError | AttributeError | KeyError | IndexError
  | ZeroDivisionError | OverflowError | RuntimeError | OSError | MemoryError

subsection \<open>Binary64 floating point\<close>

text \<open>
  A Python \<^verbatim>\<open>float\<close> is an IEEE-754 binary64 number. A finite one is modelled by the
  rational it denotes (the sign of zero is not kept; no operation below observes it).
  \<open>round_double\<close> is round-to-nearest, ties-to-even, with gradual underflow and overflow
  to infinity: the rounding every arithmetic operation and \<^verbatim>\<open>float(str)\<close> performs.
  For \<open>\<bar>x\<bar> = a / b\<close> in the binade \<open>2^e \<le> \<bar>x\<bar> < 2^(e+1)\<close> the unit in the last place
  is \<open>2^(e - 52)\<close>, and no smaller than \<open>2^(- 1074)\<close>; \<open>n\<close> is \<open>\<bar>x\<bar>\<close> in these units, rounded.
\<close>

datatype pyfloat = Finite rat | PosInf | NegInf | NaN

definition round_div_half_even :: "int \<Rightarrow> int \<Rightarrow> int" where
  "round_div_half_even a b = (let q = a div b; r = a mod b
     in if 2 * r < b then q else if b < 2 * r then q + 1 else if even q then q else q + 1)"

definition floor_log2 :: "int \<Rightarrow> int \<Rightarrow> int" where
  "floor_log2 a b = (let e0 = bitlen a - bitlen b
     in if (if 0 \<le> e0 then a < b * 2 ^ nat e0 else a * 2 ^ nat (- e0) < b) then e0 - 1 else e0)"

definition round_double :: "rat \<Rightarrow> pyfloat" where
  "round_double x = (if x = 0 then Finite 0 else
     let (a, b) = quotient_of \<bar>x\<bar>;
         e = max (floor_log2 a b) (- 1022);
         s = e - 52;
         n = (if 0 \<le> s then round_div_half_even a (b * 2 ^ nat s)
              else round_div_half_even (a * 2 ^ nat (- s)) b)
     in if 1023 < e \<or> (e = 1023 \<and> n = 2 ^ 53) then (if 0 < x then PosInf else NegInf)
        else Finite (sgn x * (if 0 \<le> s then of_int (n * 2 ^ nat s)
                              else of_int n / of_int (2 ^ nat (- s)))))"

definition fsign :: "pyfloat \<Rightarrow> int" where
  "fsign x = (case x of Finite r \<Rightarrow> (if r < 0 then - 1 else if r = 0 then 0 else 1)
                      | PosInf \<Rightarrow> 1 | NegInf \<Rightarrow> - 1 | NaN \<Rightarrow> 0)"

text \<open>\<^verbatim>\<open>x * y\<close> on floats.\<close>

definition float_mul :: "pyfloat \<Rightarrow> pyfloat \<Rightarrow> pyfloat" where
  "float_mul x y = (case (x, y) of
       (NaN, _) \<Rightarrow> NaN
     | (_, NaN) \<Rightarrow> NaN
     | (Finite a, Finite b) \<Rightarrow> round_double (a * b)
     | _ \<Rightarrow> (let s = fsign x * fsign y
              in if s = 0 then NaN else if 0 < s then PosInf else NegInf))"

text \<open>\<^verbatim>\<open>x / y\<close> on floats: a zero divisor raises.\<close>

definition float_truediv :: "pyfloat \<Rightarrow> pyfloat \<Rightarrow> pyerr + pyfloat" where
  "float_truediv x y = (if y = Finite 0 then Inl ZeroDivisionError else
     Inr (case (x, y) of
         (NaN, _) \<Rightarrow> NaN
       | (_, NaN) \<Rightarrow> NaN
       | (Finite a, Finite b) \<Rightarrow> round_double (a / b)
       | (Finite a, _) \<Rightarrow> Finite 0
       | (_, Finite b) \<Rightarrow> (if 0 < fsign x * fsign y then PosInf else NegInf)
       | _ \<Rightarrow> NaN))"

text \<open>Conversion of an \<^verbatim>\<open>int\<close> operand to \<^verbatim>\<open>float\<close>; too large an integer raises.\<close>

definition float_of_int :: "int \<Rightarrow> pyerr + pyfloat" where
  "float_of_int n = (case round_double (of_int n) of
       Finite r \<Rightarrow> Inr (Finite r) | _ \<Rightarrow> Inl OverflowError)"

text \<open>\<^verbatim>\<open>n * x\<close> with \<^verbatim>\<open>n\<close> an int and \<^verbatim>\<open>x\<close> a float.\<close>

definition int_mul_float :: "int \<Rightarrow> pyfloat \<Rightarrow> pyerr + pyfloat" where
  "int_mul_float n x = (case float_of_int n of Inl e \<Rightarrow> Inl e
                                            | Inr a \<Rightarrow> Inr (float_mul a x))"

text \<open>\<^verbatim>\<open>a / b\<close> on ints: the correctly rounded quotient.\<close>

definition int_truediv :: "int \<Rightarrow> int \<Rightarrow> pyerr + pyfloat" where
  "int_truediv a b = (if b = 0 then Inl ZeroDivisionError else
     (case round_double (of_int a / of_int b) of
        Finite r \<Rightarrow> Inr (Finite r) | _ \<Rightarrow> Inl OverflowError))"

definition trunc_rat :: "rat \<Rightarrow> int" where
  "trunc_rat r = (if 0 \<le> r then \<lfloor>r\<rfloor> else - \<lfloor>- r\<rfloor>)"

text \<open>\<^verbatim>\<open>int(x)\<close> on a float: truncation toward zero.\<close>

definition int_of_float :: "pyfloat \<Rightarrow> pyerr + int" where
  "int_of_float x = (case x of Finite r \<Rightarrow> Inr (trunc_rat r)
                             | NaN \<Rightarrow> Inl ValueError
                             | _ \<Rightarrow> Inl OverflowError)"

subsection \<open>Strings\<close>

text \<open>
  The white space that \<^verbatim>\<open>int\<close> and \<^verbatim>\<open>float\<close> skip around the text of a number: the
  characters 9 to 13 and the blank.
\<close>

definition is_space :: "char \<Rightarrow> bool" where
  "is_space c = (let n = (of_char c :: nat) in (9 \<le> n \<and> n \<le> 13) \<or> n = 32)"

definition is_digit :: "char \<Rightarrow> bool" where
  "is_digit c = (let n = (of_char c :: nat) in 48 \<le> n \<and> n \<le> 57)"

definition digit_val :: "char \<Rightarrow> nat" where
  "digit_val c = of_char c - 48"

definition lower_chr :: "char \<Rightarrow> char" where
  "lower_chr c = (let n = (of_char c :: nat) in if 65 \<le> n \<and> n \<le> 90 then char_of (n + 32) else c)"

text \<open>
  \<^verbatim>\<open>s.lower()\<close>, the text of a number without the white space around it,
  \<^verbatim>\<open>s.endswith(c)\<close> and \<^verbatim>\<open>s.split(c)\<close>.
\<close>

definition lower :: "string \<Rightarrow> string" where
  "lower s = map lower_chr s"

definition strip :: "string \<Rightarrow> string" where
  "strip s = rev (dropWhile is_space (rev (dropWhile is_space s)))"

definition endswith_chr :: "string \<Rightarrow> char \<Rightarrow> bool" where
  "endswith_chr s c = (s \<noteq> [] \<and> last s = c)"

fun split_chr :: "char \<Rightarrow> string \<Rightarrow> string list" where
  "split_chr sep [] = [[]]"
| "split_chr sep (c # cs) =
     (if c = sep then [] # split_chr sep cs
      else (case split_chr sep cs of [] \<Rightarrow> [[c]] | p # ps \<Rightarrow> (c # p) # ps))"

text \<open>
  The grammar \<^verbatim>\<open>digitpart ::= digit (["_"] digit)*\<close> of Python's numeric literals in
  strings: the longest such prefix, returned without its underscores, and the rest.
\<close>

fun digitpart :: "string \<Rightarrow> string \<times> string" where
  "digitpart [] = ([], [])"
| "digitpart [c] = (if is_digit c then ([c], []) else ([], [c]))"
| "digitpart (c # u # cs) =
     (if \<not> is_digit c then ([], c # u # cs)
      else if u = CHR ''_'' then
        (case cs of
           [] \<Rightarrow> ([c], [u])
         | d # ds \<Rightarrow> if is_digit d then (let (ds', r) = digitpart (d # ds) in (c # ds', r))
                     else ([c], u # cs))
      else (let (ds', r) = digitpart (u # cs) in (c # ds', r)))"

definition digits_val :: "string \<Rightarrow> nat" where
  "digits_val ds = foldl (\<lambda>a c. 10 * a + digit_val c) 0 ds"

text \<open>An optional sign in front: whether it is a minus, and what follows.\<close>

definition take_sign :: "string \<Rightarrow> bool \<times> string" where
  "take_sign s = (case s of
       [] \<Rightarrow> (False, [])
     | c # cs \<Rightarrow> if c = CHR ''-'' then (True, cs)
                 else if c = CHR ''+'' then (False, cs) else (False, s))"

text \<open>
  \<^verbatim>\<open>int(s)\<close> on a string, base 10. A text of more than 4300 digits is refused (the
  interpreter's default limit for the conversion).
\<close>

definition int_of_str :: "string \<Rightarrow> pyerr + int" where
  "int_of_str s = (let (neg, body) = take_sign (strip s); (ds, r) = digitpart body
     in if ds = [] \<or> r \<noteq> [] \<or> 4300 < length ds then Inl ValueError
        else Inr (if neg then - int (digits_val ds) else int (digits_val ds)))"

text \<open>
  \<^verbatim>\<open>float(s)\<close> on a string: \<^verbatim>\<open>[sign] (number [exponent] | inf | infinity | nan)\<close>, where
  \<^verbatim>\<open>number ::= [digitpart] "." digitpart | digitpart ["."]\<close>, correctly rounded.
\<close>

definition float_of_str :: "string \<Rightarrow> pyerr + pyfloat" where
  "float_of_str s = (let (neg, body) = take_sign (strip s) in
     if lower body = ''inf'' \<or> lower body = ''infinity'' then Inr (if neg then NegInf else PosInf)
     else if lower body = ''nan'' then Inr NaN
     else
       let (ip, r1) = digitpart body;
           (dot, fp, r2) = (case r1 of
                [] \<Rightarrow> (False, [], r1)
              | c # cs \<Rightarrow> if c = CHR ''.'' then (let (fp, r2) = digitpart cs in (True, fp, r2))
                          else (False, [], r1));
           (eok, ex, r3) = (case r2 of
                [] \<Rightarrow> (True, 0, r2)
              | c # cs \<Rightarrow> if c = CHR ''e'' \<or> c = CHR ''E'' then
                            (let (eneg, eb) = take_sign cs; (ed, r3) = digitpart eb
                             in (ed \<noteq> [], if eneg then - int (digits_val ed) else int (digits_val ed), r3))
                          else (True, 0, r2))
       in if (ip = [] \<and> fp = []) \<or> \<not> eok \<or> r3 \<noteq> [] then Inl ValueError
          else
            let m = of_nat (digits_val (ip @ fp)) * 10 powi (ex - int (length fp))
            in Inr (round_double (if neg then - m else m)))"

fun str_nat :: "nat \<Rightarrow> string" where
  "str_nat n = (if n < 10 then [char_of (48 + n)] else str_nat (n div 10) @ [char_of (48 + n mod 10)])"

declare str_nat.simps [simp del]

text \<open>\<^verbatim>\<open>str(n)\<close> on an int.\<close>

definition str_int :: "int \<Rightarrow> string" where
  "str_int i = (if i < 0 then CHR ''-'' # str_nat (nat (- i)) else str_nat (nat i))"

section \<open>Image converter: the resize specification parser\<close>

text \<open>
  \<^verbatim>\<open>ImageConverter._parse_resize(resize_spec, original_size)\<close>: three forms, tried in
  this order: a percentage, explicit dimensions around an \<^verbatim>\<open>x\<close>, a single width.
\<close>

definition parse_resize :: "string \<Rightarrow> int \<times> int \<Rightarrow> pyerr + (int \<times> int)" where
  "parse_resize resize_spec original_size = (let (width, height) = original_size in
     if endswith_chr resize_spec CHR ''%'' then
       (case float_of_str (butlast resize_spec) of Inl e \<Rightarrow> Inl e | Inr f \<Rightarrow>
        (case float_truediv f (Finite 100) of Inl e \<Rightarrow> Inl e | Inr percentage \<Rightarrow>
        (case int_mul_float width percentage of Inl e \<Rightarrow> Inl e | Inr fw \<Rightarrow>
        (case int_of_float fw of Inl e \<Rightarrow> Inl e | Inr new_width \<Rightarrow>
        (case int_mul_float height percentage of Inl e \<Rightarrow> Inl e | Inr fh \<Rightarrow>
        (case int_of_float fh of Inl e \<Rightarrow> Inl e | Inr new_height \<Rightarrow>
         Inr (new_width, new_height)))))))
     else if CHR ''x'' \<in> set (lower resize_spec) then
       (case split_chr CHR ''x'' (lower resize_spec) of
          p0 # p1 # _ \<Rightarrow>
            (case (if p0 \<noteq> [] then int_of_str p0 else Inr width) of Inl e \<Rightarrow> Inl e | Inr new_width \<Rightarrow>
            (case (if p1 \<noteq> [] then int_of_str p1 else Inr height) of Inl e \<Rightarrow> Inl e | Inr new_height \<Rightarrow>
             Inr (new_width, new_height)))
        | _ \<Rightarrow> Inl IndexError)
     else
       (case int_of_str resize_spec of Inl e \<Rightarrow> Inl e | Inr new_width \<Rightarrow>
       (case int_truediv height width of Inl e \<Rightarrow> Inl e | Inr aspect_ratio \<Rightarrow>
       (case int_mul_float new_width aspect_ratio of Inl e \<Rightarrow> Inl e | Inr fh \<Rightarrow>
       (case int_of_float fh of Inl e \<Rightarrow> Inl e | Inr new_height \<Rightarrow>
        Inr (new_width, new_height))))))"

section \<open>Option bags\<close>

text \<open>
  A value passed in \<^verbatim>\<open>**options\<close>: \<^verbatim>\<open>None\<close>, a bool, an int, a float or a str. The bag
  is a dict from option names to values; \<open>options k = None\<close> means that the key is absent.
\<close>

datatype pyval = PNone | PBool bool | PInt int | PFloat pyfloat | PStr string

type_synonym options = "string \<rightharpoonup> pyval"

text \<open>\<^verbatim>\<open>options.get(k)\<close> and \<^verbatim>\<open>options.get(k, d)\<close>.\<close>

definition opt_get :: "options \<Rightarrow> string \<Rightarrow> pyval" where
  "opt_get options k = (case options k of None \<Rightarrow> PNone | Some v \<Rightarrow> v)"

definition opt_get_default :: "options \<Rightarrow> string \<Rightarrow> pyval \<Rightarrow> pyval" where
  "opt_get_default options k d = (case options k of None \<Rightarrow> d | Some v \<Rightarrow> v)"

text \<open>The truth value of a Python value in a condition.\<close>

definition truthy :: "pyval \<Rightarrow> bool" where
  "truthy v = (case v of PNone \<Rightarrow> False | PBool b \<Rightarrow> b | PInt i \<Rightarrow> i \<noteq> 0
                        | PFloat f \<Rightarrow> f \<noteq> Finite 0 | PStr s \<Rightarrow> s \<noteq> [])"

text \<open>
  \<^verbatim>\<open>str(v)\<close>. The shortest-digits text of a float is not modelled: it is the parameter
  \<open>frepr\<close>.
\<close>

definition py_str :: "(pyfloat \<Rightarrow> string) \<Rightarrow> pyval \<Rightarrow> string" where
  "py_str frepr v = (case v of PNone \<Rightarrow> ''None''
                             | PBool b \<Rightarrow> (if b then ''True'' else ''False'')
                             | PInt i \<Rightarrow> str_int i
                             | PFloat f \<Rightarrow> frepr f
                             | PStr s \<Rightarrow> s)"

section \<open>Video converter: the encoder command builder\<close>

text \<open>
  \<^verbatim>\<open>VideoConverter\<close>: the paths of the two executables as \<^verbatim>\<open>shutil.which\<close> found them,
  and the table of quality presets set in \<^verbatim>\<open>__init__\<close>.
\<close>

record video_converter =
  ffmpeg_path :: "string option"
  ffprobe_path :: "string option"

record preset_settings =
  crf :: int
  preset :: string

definition video_quality_presets :: "string \<rightharpoonup> preset_settings" where
  "video_quality_presets =
     [''low'' \<mapsto> \<lparr>crf = 28, preset = ''fast''\<rparr>,
      ''medium'' \<mapsto> \<lparr>crf = 23, preset = ''medium''\<rparr>,
      ''high'' \<mapsto> \<lparr>crf = 18, preset = ''slow''\<rparr>,
      ''lossless'' \<mapsto> \<lparr>crf = 0, preset = ''veryslow''\<rparr>]"

text \<open>\<^verbatim>\<open>quality in self.quality_presets\<close> and \<^verbatim>\<open>self.quality_presets[quality]\<close>.\<close>

definition video_preset_lookup :: "pyval \<Rightarrow> preset_settings option" where
  "video_preset_lookup quality = (case quality of PStr q \<Rightarrow> video_quality_presets q | _ \<Rightarrow> None)"

text \<open>\<^verbatim>\<open>codec_map.get(video_codec, 'libx264')\<close> and \<^verbatim>\<open>codec_map.get(audio_codec, 'aac')\<close>.\<close>

definition video_codec_map :: "pyval \<Rightarrow> string" where
  "video_codec_map video_codec =
     (if video_codec = PStr ''h264'' then ''libx264''
      else if video_codec = PStr ''h265'' then ''libx265''
      else if video_codec = PStr ''vp9'' then ''libvpx-vp9''
      else if video_codec = PStr ''av1'' then ''libaom-av1''
      else ''libx264'')"

definition audio_codec_map :: "pyval \<Rightarrow> string" where
  "audio_codec_map audio_codec =
     (if audio_codec = PStr ''aac'' then ''aac''
      else if audio_codec = PStr ''mp3'' then ''libmp3lame''
      else if audio_codec = PStr ''opus'' then ''libopus''
      else ''aac'')"

text \<open>
  \<^verbatim>\<open>_parse_resolution\<close>: \<^verbatim>\<open>width, height = map(int, resolution.lower().split('x'))\<close>.
  A value that is not a str has no \<^verbatim>\<open>lower\<close>; a split into other than two parts cannot
  be unpacked.
\<close>

definition parse_resolution :: "pyval \<Rightarrow> pyerr + (int \<times> int)" where
  "parse_resolution resolution = (case resolution of
       PStr s \<Rightarrow>
         if CHR ''x'' \<in> set (lower s) then
           (case split_chr CHR ''x'' (lower s) of
              [p0, p1] \<Rightarrow>
                (case int_of_str p0 of Inl e \<Rightarrow> Inl e | Inr width \<Rightarrow>
                (case int_of_str p1 of Inl e \<Rightarrow> Inl e | Inr height \<Rightarrow> Inr (width, height)))
            | _ \<Rightarrow> Inl ValueError)
         else Inl ValueError
     | _ \<Rightarrow> Inl AttributeError)"

text \<open>
  \<^verbatim>\<open>_build_ffmpeg_command\<close>. The argument vector is a Python list: the values of
  \<^verbatim>\<open>start_time\<close>, \<^verbatim>\<open>duration\<close>, \<^verbatim>\<open>bitrate\<close> and \<^verbatim>\<open>preset\<close> go into it as they are.
  A statement \<^verbatim>\<open>if c: cmd.extend(xs)\<close> appends \<open>xs\<close> or nothing.
\<close>

definition build_ffmpeg_command ::
  "(pyfloat \<Rightarrow> string) \<Rightarrow> video_converter \<Rightarrow> string \<Rightarrow> string \<Rightarrow> options \<Rightarrow> pyerr + pyval list" where
  "build_ffmpeg_command frepr self input_path output_path options =
     (case ffmpeg_path self of
        None \<Rightarrow> Inl RuntimeError
      | Some ff \<Rightarrow>
          if ff = [] then Inl RuntimeError
          else
            let cmd = [PStr ff, PStr ''-i'', PStr input_path];
                cmd = cmd @ (if truthy (opt_get options ''start_time'')
                             then [PStr ''-ss'', opt_get options ''start_time''] else []);
                cmd = cmd @ (if truthy (opt_get options ''duration'')
                             then [PStr ''-t'', opt_get options ''duration''] else []);
                video_codec = opt_get_default options ''video_codec'' (PStr ''h264'');
                cmd = cmd @ [PStr ''-c:v'', PStr (video_codec_map video_codec)];
                quality = opt_get_default options ''quality'' (PStr ''medium'');
                cmd = cmd @ (case video_preset_lookup quality of
                               None \<Rightarrow> []
                             | Some ps \<Rightarrow>
                                 (if video_codec \<noteq> PStr ''av1''
                                  then [PStr ''-crf'', PStr (str_int (crf ps))] else [])
                                 @ [PStr ''-preset'', PStr (preset ps)]);
                cmd = cmd @ (if truthy (opt_get options ''bitrate'')
                             then [PStr ''-b:v'', opt_get options ''bitrate''] else [])
            in
              (case (if truthy (opt_get options ''resolution'')
                     then (case parse_resolution (opt_get options ''resolution'') of
                             Inl e \<Rightarrow> Inl e
                           | Inr (width, height) \<Rightarrow>
                               Inr [PStr ''-vf'',
                                    PStr (''scale='' @ str_int width @ '':'' @ str_int height)])
                     else Inr []) of
                 Inl e \<Rightarrow> Inl e
               | Inr scale \<Rightarrow>
                   let cmd = cmd @ scale;
                       cmd = cmd @ (if truthy (opt_get options ''fps'')
                                    then [PStr ''-r'', PStr (py_str frepr (opt_get options ''fps''))]
                                    else []);
                       audio_codec = opt_get_default options ''audio_codec'' (PStr ''aac'');
                       cmd = cmd @ (if audio_codec = PStr ''none'' then [PStr ''-an'']
                                    else [PStr ''-c:a'', PStr (audio_codec_map audio_codec)]);
                       preset = opt_get_default options ''preset'' (PStr ''medium'');
                       cmd = cmd @ (if video_codec = PStr ''h264'' \<or> video_codec = PStr ''h265''
                                    then [PStr ''-preset'', preset] else []);
                       output_format = opt_get_default options ''format'' (PStr ''mp4'');
                       cmd = cmd @ (if output_format = PStr ''mp4''
                                    then [PStr ''-movflags'', PStr ''+faststart''] else []);
                       cmd = cmd @ [PStr ''-y'']
                   in Inr (cmd @ [PStr output_path])))"

section \<open>The outside world\<close>



text \<open>
  \<open>img_quantize\<close> is \<^verbatim>\<open>img.convert('P', palette=Image.ADAPTIVE, colors=256)\<close>;
  \<open>img_flatten_white img use_alpha\<close> pastes \<open>img\<close> on a new white RGB image, with its
  alpha channel as mask when \<open>use_alpha\<close>; \<open>img_scale_alpha wm opacity\<close> is the three calls
  \<^verbatim>\<open>split\<close>, \<^verbatim>\<open>point\<close>, \<^verbatim>\<open>putalpha\<close>; \<open>img_strip\<close> copies the pixel data into a new image.
  \<open>img_paste\<close> and \<open>image_save\<close> change their target in place, so they return what is left
  of it also when they raise.
\<close>





section \<open>Image converter: the pipeline\<close>



definition image_quality_presets :: "string \<rightharpoonup> int" where
  "image_quality_presets = [''low'' \<mapsto> 60, ''medium'' \<mapsto> 85, ''high'' \<mapsto> 95, ''maximum'' \<mapsto> 100]"









text \<open>The quality setting of \<^verbatim>\<open>convert\<close>: a preset name becomes its number.\<close>

definition resolve_quality :: "options \<Rightarrow> pyval" where
  "resolve_quality options =
     (let quality = opt_get_default options ''quality'' (PInt 85) in
      case quality of
        PStr q \<Rightarrow> (case image_quality_presets q of Some n \<Rightarrow> PInt n | None \<Rightarrow> quality)
      | _ \<Rightarrow> quality)"

text \<open>The save options of \<^verbatim>\<open>convert\<close>.\<close>

definition build_save_options :: "string option \<Rightarrow> pyval \<Rightarrow> options \<Rightarrow> options" where
  "build_save_options format_name quality options =
     (if format_name = Some ''JPEG'' then
        (let save_options = [''quality'' \<mapsto> quality,
                             ''optimize'' \<mapsto> opt_get_default options ''optimize'' (PBool True)]
         in if truthy (opt_get options ''progressive'')
            then save_options(''progressive'' \<mapsto> PBool True) else save_options)
      else if format_name = Some ''PNG'' then
        [''optimize'' \<mapsto> opt_get_default options ''optimize'' (PBool True)]
      else if format_name = Some ''WebP'' then
        [''quality'' \<mapsto> quality, ''optimize'' \<mapsto> opt_get_default options ''optimize'' (PBool True)]
      else Map.empty)"



section \<open>Video converter: single-file conversion\<close>







section \<open>Batch conversion\<close>








section \<open>A sample world\<close>






section \<open>Vocabulary of the statements\<close>

text \<open>\<open>adjacent a b xs\<close>: somewhere in \<open>xs\<close>, \<open>a\<close> is directly followed by \<open>b\<close>.\<close>

fun adjacent :: "'a \<Rightarrow> 'a \<Rightarrow> 'a list \<Rightarrow> bool" where
  "adjacent a b (x # y # zs) = ((x = a \<and> y = b) \<or> adjacent a b (y # zs))"
| "adjacent a b [x] = False"
| "adjacent a b [] = False"






text \<open>
  The segments of the argument vector, in the order in which the builder emits them:
  the trim window, the quality block, the scale filter, and everything from the frame
  rate to the overwrite flag.
\<close>
definition trim_args :: "options \<Rightarrow> pyval list" where
  "trim_args options =
     (if truthy (opt_get options ''start_time'') then [PStr ''-ss'', opt_get options ''start_time''] else [])
     @ (if truthy (opt_get options ''duration'') then [PStr ''-t'', opt_get options ''duration''] else [])"

definition quality_args :: "options \<Rightarrow> pyval list" where
  "quality_args options =
     (case video_preset_lookup (opt_get_default options ''quality'' (PStr ''medium'')) of
        None \<Rightarrow> []
      | Some ps \<Rightarrow>
          (if opt_get_default options ''video_codec'' (PStr ''h264'') \<noteq> PStr ''av1''
           then [PStr ''-crf'', PStr (str_int (crf ps))] else [])
          @ [PStr ''-preset'', PStr (preset ps)])"

definition scale_args :: "options \<Rightarrow> pyerr + pyval list" where
  "scale_args options =
     (if truthy (opt_get options ''resolution'')
      then (case parse_resolution (opt_get options ''resolution'') of
              Inl e \<Rightarrow> Inl e
            | Inr (width, height) \<Rightarrow>
                Inr [PStr ''-vf'', PStr (''scale='' @ str_int width @ '':'' @ str_int height)])
      else Inr [])"

definition tail_args :: "(pyfloat \<Rightarrow> string) \<Rightarrow> options \<Rightarrow> pyval list" where
  "tail_args frepr options =
     (if truthy (opt_get options ''fps'') then [PStr ''-r'', PStr (py_str frepr (opt_get options ''fps''))] else [])
     @ (if opt_get_default options ''audio_codec'' (PStr ''aac'') = PStr ''none'' then [PStr ''-an'']
        else [PStr ''-c:a'', PStr (audio_codec_map (opt_get_default options ''audio_codec'' (PStr ''aac'')))])
     @ (if opt_get_default options ''video_codec'' (PStr ''h264'') = PStr ''h264''
           \<or> opt_get_default options ''video_codec'' (PStr ''h264'') = PStr ''h265''
        then [PStr ''-preset'', opt_get_default options ''preset'' (PStr ''medium'')] else [])
     @ (if opt_get_default options ''format'' (PStr ''mp4'') = PStr ''mp4''
        then [PStr ''-movflags'', PStr ''+faststart''] else [])
     @ [PStr ''-y'']"

text \<open>
  The values that the caller supplies and the builder copies into the vector as they are:
  the executable, the two paths, and the operands of the trim window, the bitrate, the
  frame rate and the speed preset.
\<close>

definition caller_values ::
  "(pyfloat \<Rightarrow> string) \<Rightarrow> video_converter \<Rightarrow> string \<Rightarrow> string \<Rightarrow> options \<Rightarrow> pyval list" where
  "caller_values frepr self input_path output_path options =
     [(case ffmpeg_path self of None \<Rightarrow> PNone | Some ff \<Rightarrow> PStr ff),
      PStr input_path, PStr output_path,
      opt_get options ''start_time'', opt_get options ''duration'', opt_get options ''bitrate'',
      PStr (py_str frepr (opt_get options ''fps'')),
      opt_get_default options ''preset'' (PStr ''medium'')]"

section \<open>Properties of the resize parser\<close>

text \<open>
  Claim C1. A spec \<^verbatim>\<open>xH\<close> is documented in the repository's examples as
  "height only (maintain aspect ratio)". The parser keeps the original width instead:
  for \<^verbatim>\<open>x600\<close> on a 1000 by 500 image it returns 1000 by 600, where the aspect ratio
  2:1 would give 1200 by 600.
\<close>

theorem parse_resize_x600_keeps_width:
  "parse_resize ''x600'' (1000, 500) = Inr (1000, 600)"
  by code_simp

lemma int_of_str_error: "int_of_str s = Inl e \<Longrightarrow> e = ValueError"
  by (auto simp: int_of_str_def Let_def split: prod.splits if_splits)

text \<open>
  Claim C9, as stated, fails: \<^verbatim>\<open>0\<close> does not end in a percent sign, has no \<^verbatim>\<open>x\<close> and is
  not a positive integer, yet the parser returns the size 0 by 0 for it.
\<close>

theorem parse_resize_accepts_zero:
  "\<not> endswith_chr ''0'' CHR ''%'' \<and> CHR ''x'' \<notin> set (lower ''0'') \<and> int_of_str ''0'' = Inr 0
   \<and> parse_resize ''0'' (100, 100) = Inr (0, 0)"
proof -
  have 1: "\<not> endswith_chr ''0'' CHR ''%''" by code_simp
  have 2: "CHR ''x'' \<notin> set (lower ''0'')" by code_simp
  have 3: "int_of_str ''0'' = Inr 0" by code_simp
  have 4: "parse_resize ''0'' (100, 100) = Inr (0, 0)" by code_simp
  from 1 2 3 4 show ?thesis by blast
qed

text \<open>
  Claim C9, amended. A spec that does not end in a percent sign, has no \<^verbatim>\<open>x\<close> and is not
  the text of an integer makes the parser raise \<^verbatim>\<open>ValueError\<close>; the sign of an integer is
  not checked.
\<close>

theorem parse_resize_rejects_non_integer:
  assumes "\<not> endswith_chr s CHR ''%''" and "CHR ''x'' \<notin> set (lower s)"
      and "\<forall>n. int_of_str s \<noteq> Inr n"
  shows "parse_resize s sz = Inl ValueError"
proof -
  obtain e where "int_of_str s = Inl e"
    using assms(3) by (cases "int_of_str s") auto
  then have "int_of_str s = Inl ValueError"
    using int_of_str_error by blast
  then show ?thesis
    using assms(1,2) by (simp add: parse_resize_def split: prod.splits)
qed

theorem parse_resize_rejects_non_integer_witness:
  "parse_resize ''abc'' (100, 100) = Inl ValueError"
proof -
  have 1: "\<not> endswith_chr ''abc'' CHR ''%''" by code_simp
  have 2: "CHR ''x'' \<notin> set (lower ''abc'')" by code_simp
  have "int_of_str ''abc'' = Inl ValueError" by code_simp
  then have 3: "\<forall>n. int_of_str ''abc'' \<noteq> Inr n" by simp
  show ?thesis
    using parse_resize_rejects_non_integer [OF 1 2 3] .
qed

section \<open>Properties of the command builder\<close>

lemma build_normal_form:
  "build_ffmpeg_command frepr self inp out options =
     (case ffmpeg_path self of
        None \<Rightarrow> Inl RuntimeError
      | Some ff \<Rightarrow>
          if ff = [] then Inl RuntimeError
          else (case scale_args options of
                  Inl e \<Rightarrow> Inl e
                | Inr sc \<Rightarrow>
                    Inr ([PStr ff, PStr ''-i'', PStr inp] @ trim_args options
                         @ [PStr ''-c:v'', PStr (video_codec_map (opt_get_default options ''video_codec'' (PStr ''h264'')))]
                         @ quality_args options
                         @ (if truthy (opt_get options ''bitrate'') then [PStr ''-b:v'', opt_get options ''bitrate''] else [])
                         @ sc @ tail_args frepr options @ [PStr out])))"
proof (cases "ffmpeg_path self")
  case None
  then show ?thesis by (simp add: build_ffmpeg_command_def)
next
  case (Some ff)
  show ?thesis
  proof (cases "ff = []")
    case True
    with Some show ?thesis by (simp add: build_ffmpeg_command_def)
  next
    case False
    show ?thesis
    proof (cases "truthy (opt_get options ''resolution'')")
      case nores: False
      with Some False show ?thesis
        by (simp add: build_ffmpeg_command_def trim_args_def quality_args_def scale_args_def
            tail_args_def Let_def split del: if_split)
    next
      case res: True
      show ?thesis
      proof (cases "parse_resolution (opt_get options ''resolution'')")
        case (Inl e)
        with Some False res show ?thesis
          by (simp add: build_ffmpeg_command_def scale_args_def Let_def split del: if_split)
      next
        case (Inr wh)
        obtain wd ht where wh: "wh = (wd, ht)" by (cases wh)
        with Some False res Inr show ?thesis
          by (simp add: build_ffmpeg_command_def trim_args_def quality_args_def scale_args_def
              tail_args_def Let_def split del: if_split)
      qed
    qed
  qed
qed

lemma adjacent_append: "adjacent a b (xs @ a # b # ys)"
proof (induction xs)
  case Nil
  show ?case by simp
next
  case (Cons x xs)
  then show ?case by (cases "xs @ a # b # ys") auto
qed

lemma adjacent_in_middle: "adjacent a b (xs @ [a, b] @ ys)"
  using adjacent_append [of a b xs ys] by simp

lemma video_preset_cases:
  assumes "video_preset_lookup v = Some ps"
  shows "ps = \<lparr>crf = 28, preset = ''fast''\<rparr> \<or> ps = \<lparr>crf = 23, preset = ''medium''\<rparr>
       \<or> ps = \<lparr>crf = 18, preset = ''slow''\<rparr> \<or> ps = \<lparr>crf = 0, preset = ''veryslow''\<rparr>"
  using assms
  by (auto simp: video_preset_lookup_def video_quality_presets_def split: pyval.splits if_splits)

lemma scale_args_no_crf:
  assumes "scale_args options = Inr sc"
  shows "PStr ''-crf'' \<notin> set sc"
  using assms
  by (auto simp: scale_args_def split: if_splits sum.splits prod.splits)

lemma build_success:
  assumes "build_ffmpeg_command frepr self inp out options = Inr cmd"
  obtains ff sc where "ffmpeg_path self = Some ff" "scale_args options = Inr sc"
    "cmd = [PStr ff, PStr ''-i'', PStr inp] @ trim_args options
           @ [PStr ''-c:v'', PStr (video_codec_map (opt_get_default options ''video_codec'' (PStr ''h264'')))]
           @ quality_args options
           @ (if truthy (opt_get options ''bitrate'') then [PStr ''-b:v'', opt_get options ''bitrate''] else [])
           @ sc @ tail_args frepr options @ [PStr out]"
  using assms unfolding build_normal_form
  by (auto split: option.splits if_splits sum.splits)

lemma str_int_18: "str_int 18 = ''18''" by code_simp
lemma str_int_23: "str_int 23 = ''23''" by code_simp
lemma str_int_30: "str_int 30 = ''30''" by code_simp
lemma str_int_1280: "str_int 1280 = ''1280''" by code_simp
lemma str_int_720: "str_int 720 = ''720''" by code_simp
lemma parse_resolution_1280x720: "parse_resolution (PStr ''1280x720'') = Inr (1280, 720)"
  by code_simp

lemmas builder_eval =
  trim_args_def quality_args_def scale_args_def tail_args_def opt_get_def opt_get_default_def
  truthy_def video_codec_map_def audio_codec_map_def video_preset_lookup_def
  video_quality_presets_def py_str_def

text \<open>
  Claim C2. With ffmpeg available, the options \<^verbatim>\<open>video_codec=h265\<close>,
  \<^verbatim>\<open>resolution="1280x720"\<close>, \<^verbatim>\<open>fps=30\<close>, \<^verbatim>\<open>audio_codec=none\<close> give the vector
  \<^verbatim>\<open>ffmpeg -i input\<close>, the flags below, and the output path. Among the flags,
  \<^verbatim>\<open>-c:v libx265\<close>, \<^verbatim>\<open>-vf scale=1280:720\<close> and \<^verbatim>\<open>-r 30\<close> are consecutive pairs,
  \<^verbatim>\<open>-an\<close> occurs and \<^verbatim>\<open>-c:a\<close> does not.
\<close>

theorem build_h265_720p_no_audio:
  assumes "ffmpeg_path self = Some ff" and "ff \<noteq> []"
  shows "let flags = [PStr ''-c:v'', PStr ''libx265'', PStr ''-crf'', PStr ''23'',
                      PStr ''-preset'', PStr ''medium'', PStr ''-vf'', PStr ''scale=1280:720'',
                      PStr ''-r'', PStr ''30'', PStr ''-an'', PStr ''-preset'', PStr ''medium'',
                      PStr ''-movflags'', PStr ''+faststart'', PStr ''-y'']
         in build_ffmpeg_command frepr self inp out
              [''video_codec'' \<mapsto> PStr ''h265'', ''resolution'' \<mapsto> PStr ''1280x720'',
               ''fps'' \<mapsto> PInt 30, ''audio_codec'' \<mapsto> PStr ''none'']
            = Inr ([PStr ff, PStr ''-i'', PStr inp] @ flags @ [PStr out])
          \<and> adjacent (PStr ''-c:v'') (PStr ''libx265'') flags
          \<and> adjacent (PStr ''-vf'') (PStr ''scale=1280:720'') flags
          \<and> adjacent (PStr ''-r'') (PStr ''30'') flags
          \<and> PStr ''-an'' \<in> set flags
          \<and> PStr ''-c:a'' \<notin> set flags"
  using assms
  by (simp add: build_normal_form builder_eval str_int_23 str_int_30 str_int_1280 str_int_720
      parse_resolution_1280x720)

theorem build_h265_720p_no_audio_witness:
  "build_ffmpeg_command (\<lambda>f. []) \<lparr>ffmpeg_path = Some ''/usr/bin/ffmpeg'', ffprobe_path = None\<rparr>
     ''in.mov'' ''out.mp4''
     [''video_codec'' \<mapsto> PStr ''h265'', ''resolution'' \<mapsto> PStr ''1280x720'',
      ''fps'' \<mapsto> PInt 30, ''audio_codec'' \<mapsto> PStr ''none'']
   = Inr [PStr ''/usr/bin/ffmpeg'', PStr ''-i'', PStr ''in.mov'',
          PStr ''-c:v'', PStr ''libx265'', PStr ''-crf'', PStr ''23'',
          PStr ''-preset'', PStr ''medium'', PStr ''-vf'', PStr ''scale=1280:720'',
          PStr ''-r'', PStr ''30'', PStr ''-an'', PStr ''-preset'', PStr ''medium'',
          PStr ''-movflags'', PStr ''+faststart'', PStr ''-y'', PStr ''out.mp4'']"
  using build_h265_720p_no_audio
    [of "\<lparr>ffmpeg_path = Some ''/usr/bin/ffmpeg'', ffprobe_path = None\<rparr>" "''/usr/bin/ffmpeg''"
        "\<lambda>f. []" "''in.mov''" "''out.mp4''"]
  by (simp add: Let_def)

text \<open>
  Claim C8. When the quality names a preset of the table (also by default) and the
  command is built: for the codec \<^verbatim>\<open>av1\<close> the vector holds \<^verbatim>\<open>-preset\<close> followed by the
  table's speed preset, and no \<^verbatim>\<open>-crf\<close> unless a value supplied by the caller is that
  very text; for any other codec it holds \<^verbatim>\<open>-crf\<close> followed by the table's CRF value,
  and \<^verbatim>\<open>-preset\<close> followed by the table's speed preset.
\<close>

theorem quality_block_av1_exemption:
  assumes built: "build_ffmpeg_command frepr self inp out options = Inr cmd"
      and named: "video_preset_lookup (opt_get_default options ''quality'' (PStr ''medium'')) = Some ps"
  shows "(opt_get_default options ''video_codec'' (PStr ''h264'') = PStr ''av1'' \<longrightarrow>
            adjacent (PStr ''-preset'') (PStr (preset ps)) cmd
            \<and> (PStr ''-crf'' \<notin> set (caller_values frepr self inp out options) \<longrightarrow>
                 PStr ''-crf'' \<notin> set cmd))
       \<and> (opt_get_default options ''video_codec'' (PStr ''h264'') \<noteq> PStr ''av1'' \<longrightarrow>
            adjacent (PStr ''-crf'') (PStr (str_int (crf ps))) cmd
            \<and> adjacent (PStr ''-preset'') (PStr (preset ps)) cmd)"
proof -
  from built obtain ff sc where ff: "ffmpeg_path self = Some ff"
    and sc: "scale_args options = Inr sc"
    and cmd: "cmd = [PStr ff, PStr ''-i'', PStr inp] @ trim_args options
           @ [PStr ''-c:v'', PStr (video_codec_map (opt_get_default options ''video_codec'' (PStr ''h264'')))]
           @ quality_args options
           @ (if truthy (opt_get options ''bitrate'') then [PStr ''-b:v'', opt_get options ''bitrate''] else [])
           @ sc @ tail_args frepr options @ [PStr out]"
    by (rule build_success)
  let ?pre = "[PStr ff, PStr ''-i'', PStr inp] @ trim_args options
           @ [PStr ''-c:v'', PStr (video_codec_map (opt_get_default options ''video_codec'' (PStr ''h264'')))]"
  let ?post = "(if truthy (opt_get options ''bitrate'') then [PStr ''-b:v'', opt_get options ''bitrate''] else [])
           @ sc @ tail_args frepr options @ [PStr out]"
  have shape: "cmd = ?pre @ quality_args options @ ?post"
    using cmd by simp
  have tbl: "preset ps \<noteq> ''-crf''"
    using video_preset_cases [OF named] by auto
  have av1: "adjacent (PStr ''-preset'') (PStr (preset ps)) cmd
             \<and> (PStr ''-crf'' \<notin> set (caller_values frepr self inp out options) \<longrightarrow>
                 PStr ''-crf'' \<notin> set cmd)"
    if c: "opt_get_default options ''video_codec'' (PStr ''h264'') = PStr ''av1''"
  proof
    have q: "quality_args options = [PStr ''-preset'', PStr (preset ps)]"
      using named c by (simp add: quality_args_def)
    have "cmd = ?pre @ [PStr ''-preset'', PStr (preset ps)] @ ?post"
      using shape q by simp
    then show "adjacent (PStr ''-preset'') (PStr (preset ps)) cmd"
      using adjacent_in_middle [of "PStr ''-preset''" "PStr (preset ps)" ?pre ?post] by simp
    show "PStr ''-crf'' \<notin> set (caller_values frepr self inp out options) \<longrightarrow> PStr ''-crf'' \<notin> set cmd"
    proof
      assume cv: "PStr ''-crf'' \<notin> set (caller_values frepr self inp out options)"
      have 1: "PStr ''-crf'' \<notin> set ?pre"
        using cv ff by (auto simp: caller_values_def trim_args_def video_codec_map_def)
      have 2: "PStr ''-crf'' \<notin> set (quality_args options)"
        using q tbl by simp
      have 3: "PStr ''-crf'' \<notin> set sc"
        using sc by (rule scale_args_no_crf)
      have 4: "PStr ''-crf'' \<notin> set (tail_args frepr options)"
        using cv c by (auto simp: caller_values_def tail_args_def audio_codec_map_def)
      have 5: "PStr ''-crf'' \<notin> set ((if truthy (opt_get options ''bitrate'')
                 then [PStr ''-b:v'', opt_get options ''bitrate''] else []) @ [PStr out])"
        using cv by (auto simp: caller_values_def)
      show "PStr ''-crf'' \<notin> set cmd"
        using 1 2 3 4 5 unfolding shape by (auto split: if_splits)
    qed
  qed
  have other: "adjacent (PStr ''-crf'') (PStr (str_int (crf ps))) cmd
             \<and> adjacent (PStr ''-preset'') (PStr (preset ps)) cmd"
    if c: "opt_get_default options ''video_codec'' (PStr ''h264'') \<noteq> PStr ''av1''"
  proof
    have q: "quality_args options = [PStr ''-crf'', PStr (str_int (crf ps)), PStr ''-preset'', PStr (preset ps)]"
      using named c by (simp add: quality_args_def)
    have a: "cmd = ?pre @ [PStr ''-crf'', PStr (str_int (crf ps))] @ (PStr ''-preset'' # PStr (preset ps) # ?post)"
      using shape q by simp
    show "adjacent (PStr ''-crf'') (PStr (str_int (crf ps))) cmd"
      unfolding a by (rule adjacent_in_middle)
    have b: "cmd = (?pre @ [PStr ''-crf'', PStr (str_int (crf ps))]) @ [PStr ''-preset'', PStr (preset ps)] @ ?post"
      using shape q by simp
    show "adjacent (PStr ''-preset'') (PStr (preset ps)) cmd"
      unfolding b by (rule adjacent_in_middle)
  qed
  from av1 other show ?thesis by blast
qed

lemma build_av1_high:
  "build_ffmpeg_command (\<lambda>f. []) \<lparr>ffmpeg_path = Some ''/usr/bin/ffmpeg'', ffprobe_path = None\<rparr>
     ''in.mov'' ''out.mp4'' [''video_codec'' \<mapsto> PStr ''av1'', ''quality'' \<mapsto> PStr ''high'']
   = Inr [PStr ''/usr/bin/ffmpeg'', PStr ''-i'', PStr ''in.mov'',
          PStr ''-c:v'', PStr ''libaom-av1'', PStr ''-preset'', PStr ''slow'',
          PStr ''-c:a'', PStr ''aac'', PStr ''-movflags'', PStr ''+faststart'', PStr ''-y'',
          PStr ''out.mp4'']"
  by (simp add: build_normal_form builder_eval)

lemma build_vp9_high:
  "build_ffmpeg_command (\<lambda>f. []) \<lparr>ffmpeg_path = Some ''/usr/bin/ffmpeg'', ffprobe_path = None\<rparr>
     ''in.mov'' ''out.mp4'' [''video_codec'' \<mapsto> PStr ''vp9'', ''quality'' \<mapsto> PStr ''high'']
   = Inr [PStr ''/usr/bin/ffmpeg'', PStr ''-i'', PStr ''in.mov'',
          PStr ''-c:v'', PStr ''libvpx-vp9'', PStr ''-crf'', PStr ''18'',
          PStr ''-preset'', PStr ''slow'',
          PStr ''-c:a'', PStr ''aac'', PStr ''-movflags'', PStr ''+faststart'', PStr ''-y'',
          PStr ''out.mp4'']"
  by (simp add: build_normal_form builder_eval str_int_18)

theorem quality_block_av1_exemption_witness:
  "(let cmd = [PStr ''/usr/bin/ffmpeg'', PStr ''-i'', PStr ''in.mov'',
          PStr ''-c:v'', PStr ''libaom-av1'', PStr ''-preset'', PStr ''slow'',
          PStr ''-c:a'', PStr ''aac'', PStr ''-movflags'', PStr ''+faststart'', PStr ''-y'',
          PStr ''out.mp4'']
    in adjacent (PStr ''-preset'') (PStr ''slow'') cmd \<and> PStr ''-crf'' \<notin> set cmd)
   \<and> (let cmd = [PStr ''/usr/bin/ffmpeg'', PStr ''-i'', PStr ''in.mov'',
          PStr ''-c:v'', PStr ''libvpx-vp9'', PStr ''-crf'', PStr ''18'',
          PStr ''-preset'', PStr ''slow'',
          PStr ''-c:a'', PStr ''aac'', PStr ''-movflags'', PStr ''+faststart'', PStr ''-y'',
          PStr ''out.mp4'']
    in adjacent (PStr ''-crf'') (PStr ''18'') cmd \<and> adjacent (PStr ''-preset'') (PStr ''slow'') cmd)"
proof -
  have look: "video_preset_lookup (opt_get_default [''video_codec'' \<mapsto> PStr ''av1'', ''quality'' \<mapsto> PStr ''high''] ''quality'' (PStr ''medium''))
     = Some \<lparr>crf = 18, preset = ''slow''\<rparr>"
    by (simp add: builder_eval)
  have look2: "video_preset_lookup (opt_get_default [''video_codec'' \<mapsto> PStr ''vp9'', ''quality'' \<mapsto> PStr ''high''] ''quality'' (PStr ''medium''))
     = Some \<lparr>crf = 18, preset = ''slow''\<rparr>"
    by (simp add: builder_eval)
  from quality_block_av1_exemption [OF build_av1_high look]
  have a: "adjacent (PStr ''-preset'') (PStr ''slow'') [PStr ''/usr/bin/ffmpeg'', PStr ''-i'', PStr ''in.mov'',
          PStr ''-c:v'', PStr ''libaom-av1'', PStr ''-preset'', PStr ''slow'',
          PStr ''-c:a'', PStr ''aac'', PStr ''-movflags'', PStr ''+faststart'', PStr ''-y'',
          PStr ''out.mp4'']
       \<and> PStr ''-crf'' \<notin> set [PStr ''/usr/bin/ffmpeg'', PStr ''-i'', PStr ''in.mov'',
          PStr ''-c:v'', PStr ''libaom-av1'', PStr ''-preset'', PStr ''slow'',
          PStr ''-c:a'', PStr ''aac'', PStr ''-movflags'', PStr ''+faststart'', PStr ''-y'',
          PStr ''out.mp4'']"
    by (simp add: caller_values_def opt_get_def opt_get_default_def py_str_def)
  from quality_block_av1_exemption [OF build_vp9_high look2]
  have b: "adjacent (PStr ''-crf'') (PStr ''18'') [PStr ''/usr/bin/ffmpeg'', PStr ''-i'', PStr ''in.mov'',
          PStr ''-c:v'', PStr ''libvpx-vp9'', PStr ''-crf'', PStr ''18'',
          PStr ''-preset'', PStr ''slow'',
          PStr ''-c:a'', PStr ''aac'', PStr ''-movflags'', PStr ''+faststart'', PStr ''-y'',
          PStr ''out.mp4'']
       \<and> adjacent (PStr ''-preset'') (PStr ''slow'') [PStr ''/usr/bin/ffmpeg'', PStr ''-i'', PStr ''in.mov'',
          PStr ''-c:v'', PStr ''libvpx-vp9'', PStr ''-crf'', PStr ''18'',
          PStr ''-preset'', PStr ''slow'',
          PStr ''-c:a'', PStr ''aac'', PStr ''-movflags'', PStr ''+faststart'', PStr ''-y'',
          PStr ''out.mp4'']"
    by (simp add: opt_get_default_def str_int_18)
  from a b show ?thesis unfolding Let_def by blast
qed

lemma quality_args_unknown:
  "video_quality_presets q = None \<Longrightarrow> quality_args (options(''quality'' \<mapsto> PStr q)) = []"
  by (simp add: quality_args_def opt_get_default_def video_preset_lookup_def)

lemma quality_args_medium:
  "quality_args (options(''quality'' \<mapsto> PStr ''medium'')) =
     (if opt_get_default options ''video_codec'' (PStr ''h264'') \<noteq> PStr ''av1''
      then [PStr ''-crf'', PStr ''23''] else []) @ [PStr ''-preset'', PStr ''medium'']"
  by (simp add: quality_args_def opt_get_default_def video_preset_lookup_def
      video_quality_presets_def str_int_23)

lemma other_args_quality:
  "trim_args (options(''quality'' \<mapsto> v)) = trim_args options"
  "scale_args (options(''quality'' \<mapsto> v)) = scale_args options"
  "tail_args frepr (options(''quality'' \<mapsto> v)) = tail_args frepr options"
  "opt_get (options(''quality'' \<mapsto> v)) ''bitrate'' = opt_get options ''bitrate''"
  "opt_get_default (options(''quality'' \<mapsto> v)) ''video_codec'' d = opt_get_default options ''video_codec'' d"
  by (simp_all add: trim_args_def scale_args_def tail_args_def opt_get_def opt_get_default_def)

text \<open>
  Claim C5, as stated, fails: the name \<^verbatim>\<open>ultra\<close> is in neither table, yet the video
  builder returns a vector (without a quality block) and the image converter keeps the
  name as the quality; nothing is raised.
\<close>

theorem unknown_preset_raises_nothing:
  "video_quality_presets ''ultra'' = None
   \<and> build_ffmpeg_command (\<lambda>f. []) \<lparr>ffmpeg_path = Some ''/usr/bin/ffmpeg'', ffprobe_path = None\<rparr>
        ''in.mov'' ''out.mp4'' [''quality'' \<mapsto> PStr ''ultra'']
      = Inr [PStr ''/usr/bin/ffmpeg'', PStr ''-i'', PStr ''in.mov'', PStr ''-c:v'', PStr ''libx264'',
             PStr ''-c:a'', PStr ''aac'', PStr ''-preset'', PStr ''medium'',
             PStr ''-movflags'', PStr ''+faststart'', PStr ''-y'', PStr ''out.mp4'']
   \<and> image_quality_presets ''ultra'' = None
   \<and> resolve_quality [''quality'' \<mapsto> PStr ''ultra''] = PStr ''ultra''"
  by (simp add: build_normal_form builder_eval resolve_quality_def image_quality_presets_def)

text \<open>
  Claim C5, amended. A quality name that is not in the table meets no check, and quality
  resolution has no error for it. The video builder raises exactly when it raises for
  the quality \<^verbatim>\<open>medium\<close>, and otherwise returns the vector for \<^verbatim>\<open>medium\<close> with the quality
  block (\<^verbatim>\<open>-crf 23\<close> unless the codec is \<^verbatim>\<open>av1\<close>, then \<^verbatim>\<open>-preset medium\<close>) taken out. The
  image converter resolves the name to itself, and the save parameters hold the name as
  their \<^verbatim>\<open>quality\<close> when the format is JPEG or WebP, and no \<^verbatim>\<open>quality\<close> for any other
  format.
\<close>

theorem unknown_preset_is_passed_over:
  "(video_quality_presets q = None \<longrightarrow>
      (case build_ffmpeg_command frepr self inp out (options(''quality'' \<mapsto> PStr ''medium'')) of
         Inl e \<Rightarrow> build_ffmpeg_command frepr self inp out (options(''quality'' \<mapsto> PStr q)) = Inl e
       | Inr cmd \<Rightarrow>
           (\<exists>pre post.
              cmd = pre @ ((if opt_get_default options ''video_codec'' (PStr ''h264'') \<noteq> PStr ''av1''
                            then [PStr ''-crf'', PStr ''23''] else [])
                           @ [PStr ''-preset'', PStr ''medium'']) @ post
              \<and> build_ffmpeg_command frepr self inp out (options(''quality'' \<mapsto> PStr q))
                  = Inr (pre @ post))))
   \<and> (image_quality_presets q = None \<longrightarrow>
        resolve_quality (options(''quality'' \<mapsto> PStr q)) = PStr q
        \<and> build_save_options format_name (resolve_quality (options(''quality'' \<mapsto> PStr q)))
              (options(''quality'' \<mapsto> PStr q)) ''quality''
            = (if format_name = Some ''JPEG'' \<or> format_name = Some ''WebP''
               then Some (PStr q) else None))"
proof (intro conjI impI)
  assume q: "video_quality_presets q = None"
  let ?m = "options(''quality'' \<mapsto> PStr ''medium'')" and ?u = "options(''quality'' \<mapsto> PStr q)"
  let ?codec = "[PStr ''-c:v'', PStr (video_codec_map (opt_get_default options ''video_codec'' (PStr ''h264'')))]"
  let ?bit = "(if truthy (opt_get options ''bitrate'') then [PStr ''-b:v'', opt_get options ''bitrate''] else [])"
  show "case build_ffmpeg_command frepr self inp out ?m of
         Inl e \<Rightarrow> build_ffmpeg_command frepr self inp out ?u = Inl e
       | Inr cmd \<Rightarrow>
           (\<exists>pre post.
              cmd = pre @ ((if opt_get_default options ''video_codec'' (PStr ''h264'') \<noteq> PStr ''av1''
                            then [PStr ''-crf'', PStr ''23''] else [])
                           @ [PStr ''-preset'', PStr ''medium'']) @ post
              \<and> build_ffmpeg_command frepr self inp out ?u = Inr (pre @ post))"
  proof (cases "build_ffmpeg_command frepr self inp out ?m")
    case (Inl e)
    then have "build_ffmpeg_command frepr self inp out ?u = Inl e"
      unfolding build_normal_form other_args_quality
      by (auto split: option.splits if_splits sum.splits)
    with Inl show ?thesis by simp
  next
    case (Inr cmd)
    then obtain ff sc where ff: "ffmpeg_path self = Some ff" "ff \<noteq> []"
      and sc: "scale_args options = Inr sc"
      and cmd: "cmd = ([PStr ff, PStr ''-i'', PStr inp] @ trim_args options @ ?codec)
                  @ quality_args ?m @ (?bit @ sc @ tail_args frepr options @ [PStr out])"
      unfolding build_normal_form other_args_quality
      by (auto split: option.splits if_splits sum.splits)
    have u: "build_ffmpeg_command frepr self inp out ?u
             = Inr (([PStr ff, PStr ''-i'', PStr inp] @ trim_args options @ ?codec)
                    @ (?bit @ sc @ tail_args frepr options @ [PStr out]))"
      unfolding build_normal_form other_args_quality using ff sc
      by (simp add: quality_args_unknown [OF q])
    from cmd u show ?thesis
      unfolding Inr quality_args_medium by (simp only: sum.case) blast
  qed
next
  assume "image_quality_presets q = None"
  then show r: "resolve_quality (options(''quality'' \<mapsto> PStr q)) = PStr q"
    by (simp add: resolve_quality_def opt_get_default_def)
  show "build_save_options format_name (resolve_quality (options(''quality'' \<mapsto> PStr q)))
              (options(''quality'' \<mapsto> PStr q)) ''quality''
            = (if format_name = Some ''JPEG'' \<or> format_name = Some ''WebP''
               then Some (PStr q) else None)"
    unfolding r by (simp add: build_save_options_def Let_def)
qed

theorem unknown_preset_is_passed_over_witness:
  "(\<exists>pre post.
      [PStr ''/usr/bin/ffmpeg'', PStr ''-i'', PStr ''in.mov'', PStr ''-c:v'', PStr ''libx264'',
       PStr ''-crf'', PStr ''23'', PStr ''-preset'', PStr ''medium'',
       PStr ''-c:a'', PStr ''aac'', PStr ''-preset'', PStr ''medium'',
       PStr ''-movflags'', PStr ''+faststart'', PStr ''-y'', PStr ''out.mp4'']
      = pre @ [PStr ''-crf'', PStr ''23'', PStr ''-preset'', PStr ''medium''] @ post
      \<and> build_ffmpeg_command (\<lambda>f. []) \<lparr>ffmpeg_path = Some ''/usr/bin/ffmpeg'', ffprobe_path = None\<rparr>
           ''in.mov'' ''out.mp4'' [''quality'' \<mapsto> PStr ''ultra''] = Inr (pre @ post))
   \<and> resolve_quality [''quality'' \<mapsto> PStr ''ultra''] = PStr ''ultra''
   \<and> build_save_options (Some ''JPEG'') (resolve_quality [''quality'' \<mapsto> PStr ''ultra''])
         [''quality'' \<mapsto> PStr ''ultra''] ''quality'' = Some (PStr ''ultra'')"
proof -
  have m: "build_ffmpeg_command (\<lambda>f. []) \<lparr>ffmpeg_path = Some ''/usr/bin/ffmpeg'', ffprobe_path = None\<rparr>
        ''in.mov'' ''out.mp4'' (Map.empty(''quality'' \<mapsto> PStr ''medium''))
      = Inr [PStr ''/usr/bin/ffmpeg'', PStr ''-i'', PStr ''in.mov'', PStr ''-c:v'', PStr ''libx264'',
       PStr ''-crf'', PStr ''23'', PStr ''-preset'', PStr ''medium'',
       PStr ''-c:a'', PStr ''aac'', PStr ''-preset'', PStr ''medium'',
       PStr ''-movflags'', PStr ''+faststart'', PStr ''-y'', PStr ''out.mp4'']"
    by (simp add: build_normal_form builder_eval str_int_23)
  have v: "video_quality_presets ''ultra'' = None" and i: "image_quality_presets ''ultra'' = None"
    by (simp_all add: video_quality_presets_def image_quality_presets_def)
  note T = unknown_preset_is_passed_over
      [where q = "''ultra''" and frepr = "\<lambda>f. []" and inp = "''in.mov''" and out = "''out.mp4''"
         and self = "\<lparr>ffmpeg_path = Some ''/usr/bin/ffmpeg'', ffprobe_path = None\<rparr>"
         and options = Map.empty and format_name = "Some ''JPEG''"]
  from T [THEN conjunct1, THEN mp, OF v]
  have a: "\<exists>pre post.
      [PStr ''/usr/bin/ffmpeg'', PStr ''-i'', PStr ''in.mov'', PStr ''-c:v'', PStr ''libx264'',
       PStr ''-crf'', PStr ''23'', PStr ''-preset'', PStr ''medium'',
       PStr ''-c:a'', PStr ''aac'', PStr ''-preset'', PStr ''medium'',
       PStr ''-movflags'', PStr ''+faststart'', PStr ''-y'', PStr ''out.mp4'']
      = pre @ [PStr ''-crf'', PStr ''23'', PStr ''-preset'', PStr ''medium''] @ post
      \<and> build_ffmpeg_command (\<lambda>f. []) \<lparr>ffmpeg_path = Some ''/usr/bin/ffmpeg'', ffprobe_path = None\<rparr>
           ''in.mov'' ''out.mp4'' [''quality'' \<mapsto> PStr ''ultra''] = Inr (pre @ post)"
    by (simp add: m opt_get_default_def)
  from T [THEN conjunct2, THEN mp, OF i]
  have b: "resolve_quality [''quality'' \<mapsto> PStr ''ultra''] = PStr ''ultra''"
    by (rule conjunct1)
  from T [THEN conjunct2, THEN mp, OF i, THEN conjunct2]
  have c: "build_save_options (Some ''JPEG'') (resolve_quality [''quality'' \<mapsto> PStr ''ultra''])
         [''quality'' \<mapsto> PStr ''ultra''] ''quality'' = Some (PStr ''ultra'')"
    by (simp only: simp_thms if_True)
  from a b c show ?thesis by (intro conjI)
qed

section \<open>Properties of the image pipeline\<close>

text \<open>
  Claim C6, as stated, fails: with no option set at all, the save options for JPEG, PNG
  and WebP carry \<^verbatim>\<open>optimize=True\<close>, not false.
\<close>

theorem optimize_unset_is_true:
  "build_save_options (Some ''JPEG'') (resolve_quality Map.empty) Map.empty ''optimize'' = Some (PBool True)
   \<and> build_save_options (Some ''PNG'') (resolve_quality Map.empty) Map.empty ''optimize'' = Some (PBool True)
   \<and> build_save_options (Some ''WebP'') (resolve_quality Map.empty) Map.empty ''optimize'' = Some (PBool True)"
  by (simp add: build_save_options_def opt_get_default_def opt_get_def truthy_def)

text \<open>
  Claim C6, amended. When the option \<^verbatim>\<open>optimize\<close> is unset, the save options for a JPEG,
  PNG or WebP target carry the default \<^verbatim>\<open>optimize=True\<close>.
\<close>

theorem optimize_defaults_to_true:
  assumes "options ''optimize'' = None"
      and "format_name = Some ''JPEG'' \<or> format_name = Some ''PNG'' \<or> format_name = Some ''WebP''"
  shows "build_save_options format_name quality options ''optimize'' = Some (PBool True)"
  using assms
  by (auto simp: build_save_options_def opt_get_default_def Let_def)

theorem optimize_defaults_to_true_witness:
  "build_save_options (Some ''WebP'') (PInt 90) [''quality'' \<mapsto> PInt 90] ''optimize'' = Some (PBool True)"
  using optimize_defaults_to_true [of "[''quality'' \<mapsto> PInt 90]" "Some ''WebP''" "PInt 90"]
  by simp
























section \<open>Properties of single-file video conversion\<close>














section \<open>Properties of batch conversion\<close>









section \<open>The percentage form of the resize parser\<close>

text \<open>
  Rounding to binary64: the result of \<open>round_double\<close> on a positive number in the normal
  range is within the relative error \<open>1 / 2 ^ 53\<close>, and the integers below \<open>2 ^ 52\<close> are
  represented exactly.
\<close>

lemma round_div_half_even_error:
  assumes "0 < b"
  shows "\<bar>of_int (round_div_half_even a b) - (of_int a / of_int b :: rat)\<bar> \<le> 1 / 2"
proof -
  define q r where "q = a div b" and "r = a mod b"
  have a: "a = b * q + r" and r: "0 \<le> r" "r < b"
    using assms by (simp_all add: q_def r_def)
  have frac: "(of_int a / of_int b :: rat) = of_int q + of_int r / of_int b"
    using assms by (simp add: a field_simps)
  have r0: "0 \<le> (of_int r / of_int b :: rat)" and r1: "(of_int r / of_int b :: rat) < 1"
    using r assms by simp_all
  have lo: "(of_int r / of_int b :: rat) \<le> 1 / 2" if "2 * r \<le> b"
  proof -
    have "(of_int (2 * r) :: rat) \<le> of_int b" using that by (simp only: of_int_le_iff)
    then show ?thesis using assms by (simp add: field_simps)
  qed
  have hi: "1 / 2 \<le> (of_int r / of_int b :: rat)" if "b \<le> 2 * r"
  proof -
    have "(of_int b :: rat) \<le> of_int (2 * r)" using that by (simp only: of_int_le_iff)
    then show ?thesis using assms by (simp add: field_simps)
  qed
  consider "2 * r < b" | "b < 2 * r" | "2 * r = b" by linarith
  then show ?thesis
  proof cases
    case 1
    then have "round_div_half_even a b = q"
      by (simp add: round_div_half_even_def q_def r_def Let_def)
    with lo [of] 1 r0 show ?thesis unfolding frac by simp
  next
    case 2
    then have "round_div_half_even a b = q + 1"
      by (simp add: round_div_half_even_def q_def r_def Let_def)
    with hi 2 r1 show ?thesis unfolding frac by simp
  next
    case 3
    then have "round_div_half_even a b = q \<or> round_div_half_even a b = q + 1"
      by (simp add: round_div_half_even_def q_def r_def Let_def)
    moreover have "(of_int r / of_int b :: rat) = 1 / 2"
      using lo hi 3 by force
    ultimately show ?thesis unfolding frac by auto
  qed
qed

lemma two_powi_nat: "0 \<le> k \<Longrightarrow> (2::rat) powi k = of_int (2 ^ nat k)"
  by (simp add: power_int_def)

lemma two_powi_split: "(2::rat) powi (m + n) = 2 powi m * 2 powi n"
  by (rule power_int_add) simp

lemma of_int_le_two_powi:
  assumes "0 \<le> k" "2 ^ nat k \<le> a"
  shows "2 powi k \<le> (of_int a :: rat)"
proof -
  have "(of_int (2 ^ nat k) :: rat) \<le> of_int a"
    using assms(2) by (simp only: of_int_le_iff)
  then show ?thesis by (simp only: two_powi_nat [OF assms(1)])
qed

lemma of_int_less_two_powi:
  assumes "0 \<le> k" "a < 2 ^ nat k"
  shows "(of_int a :: rat) < 2 powi k"
proof -
  have "(of_int a :: rat) < of_int (2 ^ nat k)"
    using assms(2) by (simp only: of_int_less_iff)
  then show ?thesis by (simp only: two_powi_nat [OF assms(1)])
qed

lemma floor_log2_bounds:
  assumes "0 < a" "0 < b"
  shows "2 powi (floor_log2 a b) \<le> (of_int a / of_int b :: rat)"
    and "(of_int a / of_int b :: rat) < 2 powi (floor_log2 a b + 1)"
proof -
  define la lb where "la = bitlen a" and "lb = bitlen b"
  define x :: rat where "x = of_int a / of_int b"
  have "bitlen a \<noteq> 0" "bitlen b \<noteq> 0"
    using assms by (simp_all add: bitlen_eq_zero_iff)
  then have la: "1 \<le> la" and lb: "1 \<le> lb"
    using bitlen_nonneg [of a] bitlen_nonneg [of b]
    unfolding la_def lb_def by linarith+
  have ba: "2 ^ nat (la - 1) \<le> a" "a < 2 ^ nat la" and bb: "2 ^ nat (lb - 1) \<le> b" "b < 2 ^ nat lb"
    using bitlen_bounds [OF assms(1)] bitlen_bounds [OF assms(2)] unfolding la_def lb_def by blast+
  have ra: "2 powi (la - 1) \<le> (of_int a :: rat)" "(of_int a :: rat) < 2 powi la"
    using of_int_le_two_powi [OF _ ba(1)] of_int_less_two_powi [OF _ ba(2)] la by linarith+
  have rb: "2 powi (lb - 1) \<le> (of_int b :: rat)" "(of_int b :: rat) < 2 powi lb"
    using of_int_le_two_powi [OF _ bb(1)] of_int_less_two_powi [OF _ bb(2)] lb by linarith+
  have bpos: "0 < (of_int b :: rat)" using assms by simp
  have pp: "0 < (2::rat) powi k" for k by simp
  have up: "x < 2 powi (la - lb + 1)"
  proof -
    have "(2::rat) powi la = 2 powi (la - lb + 1) * 2 powi (lb - 1)"
      using two_powi_split [of "la - lb + 1" "lb - 1"] by simp
    also have "\<dots> \<le> 2 powi (la - lb + 1) * of_int b"
      using rb(1) pp [of "la - lb + 1"] by (simp only: mult_le_cancel_left_pos)
    finally have "of_int a < 2 powi (la - lb + 1) * (of_int b :: rat)"
      using ra(2) by linarith
    then show ?thesis using bpos by (simp add: x_def pos_divide_less_eq)
  qed
  have low: "2 powi (la - lb - 1) < x"
  proof -
    have "(2::rat) powi (la - lb - 1) * of_int b < 2 powi (la - lb - 1) * 2 powi lb"
      using rb(2) pp [of "la - lb - 1"] by (simp only: mult_less_cancel_left_pos)
    also have "\<dots> = 2 powi (la - 1)"
      using two_powi_split [of "la - lb - 1" lb] by simp
    finally have "(2::rat) powi (la - lb - 1) * of_int b < of_int a"
      using ra(1) by linarith
    then show ?thesis using bpos by (simp add: x_def pos_less_divide_eq)
  qed
  have test: "(if 0 \<le> la - lb then a < b * 2 ^ nat (la - lb) else a * 2 ^ nat (- (la - lb)) < b)
              \<longleftrightarrow> x < 2 powi (la - lb)"
  proof (cases "0 \<le> la - lb")
    case True
    have "a < b * 2 ^ nat (la - lb) \<longleftrightarrow> (of_int a :: rat) < of_int (b * 2 ^ nat (la - lb))"
      by (simp only: of_int_less_iff)
    also have "(of_int (b * 2 ^ nat (la - lb)) :: rat) = of_int b * 2 powi (la - lb)"
      using two_powi_nat [OF True] by simp
    also have "(of_int a :: rat) < of_int b * 2 powi (la - lb) \<longleftrightarrow> x < 2 powi (la - lb)"
      using bpos by (simp add: x_def pos_divide_less_eq mult.commute)
    finally show ?thesis using True by simp
  next
    case False
    then have neg: "0 \<le> - (la - lb)" by simp
    have p: "(2::rat) powi (la - lb) * 2 powi (- (la - lb)) = 1"
      using two_powi_split [of "la - lb" "- (la - lb)"] by simp
    have "a * 2 ^ nat (- (la - lb)) < b \<longleftrightarrow> (of_int (a * 2 ^ nat (- (la - lb))) :: rat) < of_int b"
      by (simp only: of_int_less_iff)
    also have "(of_int (a * 2 ^ nat (- (la - lb))) :: rat) = of_int a * 2 powi (- (la - lb))"
      using two_powi_nat [OF neg] by simp
    also have "(of_int a :: rat) * 2 powi (- (la - lb)) < of_int b \<longleftrightarrow> x < 2 powi (la - lb)"
    proof -
      have "x < 2 powi (la - lb) \<longleftrightarrow> of_int a < 2 powi (la - lb) * (of_int b :: rat)"
        using bpos by (simp add: x_def pos_divide_less_eq)
      also have "\<dots> \<longleftrightarrow> of_int a * 2 powi (- (la - lb)) < (2 powi (la - lb) * of_int b) * (2::rat) powi (- (la - lb))"
        using pp [of "- (la - lb)"] by (simp only: mult_less_cancel_right_pos)
      also have "(2 powi (la - lb) * of_int b) * (2::rat) powi (- (la - lb)) = of_int b"
        using p by (simp add: mult.commute mult.left_commute)
      finally show ?thesis by simp
    qed
    finally show ?thesis using False by simp
  qed
  have fl: "floor_log2 a b = (if x < 2 powi (la - lb) then la - lb - 1 else la - lb)"
    unfolding floor_log2_def Let_def la_def [symmetric] lb_def [symmetric]
    using test by simp
  show "2 powi (floor_log2 a b) \<le> (of_int a / of_int b :: rat)"
    using low fl by (cases "x < 2 powi (la - lb)") (simp_all add: x_def)
  show "(of_int a / of_int b :: rat) < 2 powi (floor_log2 a b + 1)"
    using up fl by (cases "x < 2 powi (la - lb)") (simp_all add: x_def)
qed


lemma two_powi_less_imp:
  assumes "(2::rat) powi m < 2 powi n"
  shows "m < n"
proof (rule ccontr)
  assume "\<not> m < n"
  then have "n \<le> m" by simp
  then have "(2::rat) powi n \<le> 2 powi m"
    by (rule power_int_increasing) simp
  with assms show False by simp
qed

lemma round_div_half_even_nonneg:
  assumes "0 \<le> a" "0 < b"
  shows "0 \<le> round_div_half_even a b"
proof -
  have "0 \<le> a div b" using assms by (simp add: pos_imp_zdiv_nonneg_iff)
  then show ?thesis by (simp add: round_div_half_even_def Let_def)
qed

lemma round_div_half_even_one: "round_div_half_even a 1 = a"
  by (simp add: round_div_half_even_def)

lemma round_double_small:
  assumes q: "quotient_of x = (a, b)" and pos: "0 < x"
      and e: "- 1022 \<le> floor_log2 a b" "floor_log2 a b < 52"
  shows "round_double x
         = Finite (of_int (round_div_half_even (a * 2 ^ nat (52 - floor_log2 a b)) b)
                   / of_int (2 ^ nat (52 - floor_log2 a b)))"
proof -
  have m: "max (floor_log2 a b) (- 1022) = floor_log2 a b" using e by simp
  have ax: "\<bar>x\<bar> = x" and sx: "sgn x = 1" and nz: "x \<noteq> 0" using pos by simp_all
  have neg: "\<not> 0 \<le> floor_log2 a b - 52" and no: "\<not> 1023 < floor_log2 a b" "floor_log2 a b \<noteq> 1023"
    and k: "- (floor_log2 a b - 52) = 52 - floor_log2 a b"
    using e by simp_all
  show ?thesis
    unfolding round_double_def ax q Let_def prod.case m
    by (simp only: nz neg no k sx if_False mult_1 simp_thms)
qed

lemma round_double_error:
  assumes lo: "2 powi (- 1022) \<le> x" and hi: "x < 2 ^ 52"
  shows "\<exists>y. round_double x = Finite y \<and> 0 \<le> y \<and> \<bar>y - x\<bar> \<le> x / 2 ^ 53"
proof -
  have pos: "0 < x"
    using lo zero_less_power_int [of "2::rat" "- 1022"] by linarith
  obtain a b where q: "quotient_of x = (a, b)" by (cases "quotient_of x")
  have b: "0 < b" using q by (rule quotient_of_denom_pos)
  have x: "x = of_int a / of_int b" using q by (rule quotient_of_div)
  have a: "0 < a"
    using pos b unfolding x by (simp add: zero_less_divide_iff)
  define e where "e = floor_log2 a b"
  have eb: "2 powi e \<le> x" "x < 2 powi (e + 1)"
    using floor_log2_bounds [OF a b] unfolding e_def x by simp_all
  have "(2::rat) powi (- 1022) < 2 powi (e + 1)" using lo eb(2) by linarith
  then have e1: "- 1022 \<le> e" using two_powi_less_imp by fastforce
  have "(2::rat) powi e < 2 powi 52" using eb(1) hi by simp
  then have e2: "e < 52" by (rule two_powi_less_imp)
  define k where "k = nat (52 - e)"
  define n where "n = round_div_half_even (a * 2 ^ k) b"
  have rd: "round_double x = Finite (of_int n / of_int (2 ^ k))"
    using round_double_small [OF q pos] e1 e2 unfolding e_def n_def k_def by simp
  have n0: "0 \<le> n"
    unfolding n_def using a b by (intro round_div_half_even_nonneg) simp_all
  have kp: "(of_int (2 ^ k) :: rat) = 2 powi (52 - e)"
    using two_powi_nat [of "52 - e"] e2 unfolding k_def by simp
  have kpos: "0 < (2::rat) powi (52 - e)" by simp
  have err: "\<bar>of_int n - (of_int (a * 2 ^ k) / of_int b :: rat)\<bar> \<le> 1 / 2"
    unfolding n_def using b by (rule round_div_half_even_error)
  have sc: "(of_int (a * 2 ^ k) / of_int b :: rat) = x * 2 powi (52 - e)"
    unfolding x using kp by simp
  have "\<bar>of_int n / 2 powi (52 - e) - x\<bar> = \<bar>of_int n - x * 2 powi (52 - e)\<bar> / 2 powi (52 - e)"
    using kpos by (simp add: field_simps abs_divide flip: abs_mult)
  also have "\<dots> \<le> (1 / 2) / 2 powi (52 - e)"
    using err kpos unfolding sc by (intro divide_right_mono) simp_all
  also have "\<dots> = 2 powi e / 2 ^ 53"
  proof -
    have "(2::rat) powi 53 = 2 powi e * 2 powi (53 - e)"
      using two_powi_split [of e "53 - e"] by simp
    moreover have "(2::rat) powi (53 - e) = 2 powi (52 - e) * 2"
      using two_powi_split [of "52 - e" 1] by simp
    ultimately show ?thesis by (simp add: field_simps)
  qed
  also have "\<dots> \<le> x / 2 ^ 53"
    using eb(1) by (simp add: divide_right_mono)
  finally have "\<bar>of_int n / of_int (2 ^ k) - x\<bar> \<le> x / 2 ^ 53"
    unfolding kp .
  moreover have "0 \<le> (of_int n / of_int (2 ^ k) :: rat)"
    using n0 by simp
  ultimately show ?thesis using rd by blast
qed

lemma round_double_of_int:
  assumes "0 \<le> n" "n < 2 ^ 52"
  shows "round_double (of_int n) = Finite (of_int n)"
proof (cases "n = 0")
  case True
  then show ?thesis by (simp add: round_double_def)
next
  case False
  with assms have n: "0 < n" by simp
  have q: "quotient_of (of_int n :: rat) = (n, 1)" by simp
  have pos: "0 < (of_int n :: rat)" using n by simp
  define e where "e = floor_log2 n 1"
  have eb: "2 powi e \<le> (of_int n :: rat)" "(of_int n :: rat) < 2 powi (e + 1)"
    using floor_log2_bounds [OF n, of 1] unfolding e_def by simp_all
  have "(1::rat) \<le> of_int n" using n by simp
  then have "(2::rat) powi 0 < 2 powi (e + 1)" using eb(2) by simp
  then have e1: "0 \<le> e" using two_powi_less_imp [of 0 "e + 1"] by simp
  have "(of_int n :: rat) < of_int (2 ^ 52)"
    using assms(2) by (simp only: of_int_less_iff)
  then have "(2::rat) powi e < 2 powi 52" using eb(1) by simp
  then have e2: "e < 52" by (rule two_powi_less_imp)
  have "round_double (of_int n)
        = Finite (of_int (round_div_half_even (n * 2 ^ nat (52 - e)) 1) / of_int (2 ^ nat (52 - e)))"
    using round_double_small [OF q pos] e1 e2 unfolding e_def by simp
  then show ?thesis by (simp add: round_div_half_even_one)
qed

lemma floor_close:
  fixes a b :: rat
  assumes "\<bar>a - b\<bar> < 1"
  shows "\<bar>\<lfloor>a\<rfloor> - \<lfloor>b\<rfloor>\<bar> \<le> 1"
proof -
  have "of_int \<lfloor>a\<rfloor> \<le> a" "a < of_int \<lfloor>a\<rfloor> + 1" "of_int \<lfloor>b\<rfloor> \<le> b" "b < of_int \<lfloor>b\<rfloor> + 1"
    by linarith+
  with assms have "(of_int \<lfloor>a\<rfloor> :: rat) < of_int \<lfloor>b\<rfloor> + 2" "(of_int \<lfloor>b\<rfloor> :: rat) < of_int \<lfloor>a\<rfloor> + 2"
    by linarith+
  then have "(of_int \<lfloor>a\<rfloor> :: rat) < of_int (\<lfloor>b\<rfloor> + 2)" "(of_int \<lfloor>b\<rfloor> :: rat) < of_int (\<lfloor>a\<rfloor> + 2)"
    by simp_all
  then have "\<lfloor>a\<rfloor> < \<lfloor>b\<rfloor> + 2" "\<lfloor>b\<rfloor> < \<lfloor>a\<rfloor> + 2"
    by (simp_all only: of_int_less_iff)
  then show ?thesis by linarith
qed

lemma scaled_dimension:
  assumes c: "2 powi (- 1007) \<le> c"
      and f2: "\<bar>f2 - c\<bar> \<le> c / 2 ^ 53" "0 \<le> f2"
      and w: "0 \<le> w" "w < 2 ^ 52"
      and wc: "of_int w * c < 2 ^ 51"
  shows "\<exists>fw n. int_mul_float w (Finite f2) = Inr fw \<and> int_of_float fw = Inr n
           \<and> \<bar>n - \<lfloor>of_int w * c\<rfloor>\<bar> \<le> 1"
proof (cases "w = 0")
  case True
  then show ?thesis
    by (simp add: int_mul_float_def float_of_int_def float_mul_def round_double_def
        int_of_float_def trunc_rat_def)
next
  case False
  with w have w1: "(1::rat) \<le> of_int w" by simp
  have cpos: "0 < c"
    using c zero_less_power_int [of "2::rat" "- 1007"] by linarith
  have half: "c / 2 ^ 53 \<le> c / 2" using cpos by (simp add: field_simps)
  have f2lo: "c / 2 \<le> f2" and f2hi: "f2 \<le> c + c / 2 ^ 53"
    using f2(1) half by linarith+
  define t where "t = of_int w * f2"
  have conv: "float_of_int w = Inr (Finite (of_int w))"
    using round_double_of_int [OF w] by (simp add: float_of_int_def)
  have mul: "int_mul_float w (Finite f2) = Inr (round_double t)"
    using conv by (simp add: int_mul_float_def float_mul_def t_def)
  have "(2::rat) powi (- 1022) \<le> 2 powi (- 1008)"
    by (rule power_int_increasing) simp_all
  also have "(2::rat) powi (- 1008) = 2 powi (- 1007) / 2"
    using two_powi_split [of "- 1008" 1] by simp
  also have "\<dots> \<le> c / 2" using c by simp
  also have "\<dots> \<le> f2" by (rule f2lo)
  also have "\<dots> \<le> t"
    unfolding t_def using w1 f2(2) mult_right_mono [of 1 "of_int w" f2] by simp
  finally have tlo: "2 powi (- 1022) \<le> t" .
  have wpos: "(0::rat) \<le> of_int w" using w by simp
  have "of_int w * f2 \<le> of_int w * (c + c / 2 ^ 53)"
    using f2hi wpos by (rule mult_left_mono)
  also have "\<dots> = of_int w * c + of_int w * c / 2 ^ 53"
    by (simp add: distrib_left)
  finally have tle: "t \<le> of_int w * c + of_int w * c / 2 ^ 53"
    unfolding t_def .
  have small: "of_int w * c / 2 ^ 53 \<le> of_int w * c"
    using wpos cpos by (simp add: field_simps)
  have t2: "t \<le> 2 * (of_int w * c)" using tle small by linarith
  also have "\<dots> < 2 * 2 ^ 51" using wc by linarith
  finally have thi: "t < 2 ^ 52" by simp
  from round_double_error [OF tlo thi]
  obtain y where y: "round_double t = Finite y" "0 \<le> y" "\<bar>y - t\<bar> \<le> t / 2 ^ 53"
    by blast
  have d1: "\<bar>t - of_int w * c\<bar> \<le> of_int w * c / 2 ^ 53"
  proof -
    have "\<bar>t - of_int w * c\<bar> = of_int w * \<bar>f2 - c\<bar>"
      unfolding t_def using wpos by (simp add: abs_mult flip: right_diff_distrib)
    also have "\<dots> \<le> of_int w * (c / 2 ^ 53)"
      using f2(1) wpos by (rule mult_left_mono)
    finally show ?thesis by simp
  qed
  have d2: "t / 2 ^ 53 \<le> 2 * (of_int w * c) / 2 ^ 53"
    by (rule divide_right_mono [OF t2]) simp
  have w3: "3 * (of_int w * c) < (3 * 2 ^ 51 :: rat)" using wc by linarith
  have "\<bar>y - of_int w * c\<bar> \<le> \<bar>y - t\<bar> + \<bar>t - of_int w * c\<bar>" by simp
  also have "\<dots> \<le> 2 * (of_int w * c) / 2 ^ 53 + of_int w * c / 2 ^ 53"
    using y(3) d1 d2 by linarith
  also have "\<dots> = 3 * (of_int w * c) / 2 ^ 53" by simp
  also have "\<dots> < 3 * 2 ^ 51 / 2 ^ 53"
    by (rule divide_strict_right_mono [OF w3]) simp
  also have "\<dots> < (1::rat)" by simp
  finally have close: "\<bar>y - of_int w * c\<bar> < 1" .
  have "int_of_float (round_double t) = Inr \<lfloor>y\<rfloor>"
    using y(1,2) by (simp add: int_of_float_def trunc_rat_def)
  moreover have "\<bar>\<lfloor>y\<rfloor> - \<lfloor>of_int w * c\<rfloor>\<bar> \<le> 1"
    using close by (rule floor_close)
  ultimately show ?thesis using mul by blast
qed

text \<open>
  Claim C7 fails as it is worded: the percentage is divided by 100 and multiplied with
  the side in binary floating point, and the product is truncated. For \<^verbatim>\<open>29%\<close> of a side
  of 100 the quotient is the number below 0.29 that is nearest to it, the product is just
  below 29, and the result is 28.
\<close>

theorem parse_resize_29_percent:
  "parse_resize ''29%'' (100, 100) = Inr (28, 28) \<and> \<lfloor>100 * 29 / 100 :: rat\<rfloor> = 29"
proof -
  have 1: "parse_resize ''29%'' (100, 100) = Inr (28, 28)" by code_simp
  have 2: "\<lfloor>100 * 29 / 100 :: rat\<rfloor> = 29" by simp
  from 1 2 show ?thesis by blast
qed

text \<open>
  Claim C7, amended. Let \<^verbatim>\<open>float\<close> read the text before the sign \<^verbatim>\<open>%\<close> as the number \<open>p\<close>,
  with \<open>1 / 2 ^ 1000 \<le> p\<close> and \<open>p < 2 ^ 52\<close>, and let the sides \<open>w\<close>, \<open>h\<close> be non-negative
  and below \<open>2 ^ 52\<close>, and the exact values \<open>w * p / 100\<close>, \<open>h * p / 100\<close> below \<open>2 ^ 51\<close>.
  Then the parser returns a size, and each side of it differs from the floor of the
  exact value by at most 1.
\<close>

theorem parse_resize_percent_within_one:
  assumes pct: "endswith_chr spec CHR ''%''"
      and p: "float_of_str (butlast spec) = Inr (Finite p)"
      and plo: "1 / 2 ^ 1000 \<le> p" and phi: "p < 2 ^ 52"
      and w: "0 \<le> w" "w < 2 ^ 52" and h: "0 \<le> h" "h < 2 ^ 52"
      and wp: "of_int w * (p / 100) < 2 ^ 51" and hp: "of_int h * (p / 100) < 2 ^ 51"
  shows "\<exists>nw nh. parse_resize spec (w, h) = Inr (nw, nh)
           \<and> \<bar>nw - \<lfloor>of_int w * (p / 100)\<rfloor>\<bar> \<le> 1
           \<and> \<bar>nh - \<lfloor>of_int h * (p / 100)\<rfloor>\<bar> \<le> 1"
proof -
  define c where "c = p / 100"
  have p1000: "(1 / 2 ^ 1000 :: rat) = 2 powi (- 1000)"
    using power_int_minus_divide [of "2::rat" 1000] by simp
  have "(2::rat) powi (- 1007) * 100 \<le> 2 powi (- 1007) * 2 ^ 7" by simp
  also have "\<dots> = 2 powi (- 1000)"
    using two_powi_split [of "- 1007" 7] by simp
  finally have "(2::rat) powi (- 1007) * 100 \<le> p" using plo p1000 by simp
  then have clo: "2 powi (- 1007) \<le> c" unfolding c_def by (simp add: field_simps)
  have "(2::rat) powi (- 1022) \<le> 2 powi (- 1007)"
    by (rule power_int_increasing) simp_all
  with clo have clo': "2 powi (- 1022) \<le> c" by simp
  have ppos: "0 < p" using plo p1000 zero_less_power_int [of "2::rat" "- 1000"] by linarith
  have chi: "c < 2 ^ 52" unfolding c_def using phi ppos by (simp add: field_simps)
  from round_double_error [OF clo' chi]
  obtain f2 where f2: "round_double c = Finite f2" "0 \<le> f2" "\<bar>f2 - c\<bar> \<le> c / 2 ^ 53"
    by blast
  have dv: "float_truediv (Finite p) (Finite 100) = Inr (Finite f2)"
    using f2(1) by (simp add: float_truediv_def c_def)
  from scaled_dimension [OF clo f2(3) f2(2) w] wp
  obtain fw nw where nw: "int_mul_float w (Finite f2) = Inr fw" "int_of_float fw = Inr nw"
    "\<bar>nw - \<lfloor>of_int w * c\<rfloor>\<bar> \<le> 1"
    unfolding c_def by blast
  from scaled_dimension [OF clo f2(3) f2(2) h] hp
  obtain fh nh where nh: "int_mul_float h (Finite f2) = Inr fh" "int_of_float fh = Inr nh"
    "\<bar>nh - \<lfloor>of_int h * c\<rfloor>\<bar> \<le> 1"
    unfolding c_def by blast
  have "parse_resize spec (w, h) = Inr (nw, nh)"
    using pct p dv nw(1,2) nh(1,2) by (simp add: parse_resize_def)
  with nw(3) nh(3) show ?thesis unfolding c_def by blast
qed

theorem parse_resize_percent_within_one_witness:
  "\<exists>nw nh. parse_resize ''29%'' (100, 100) = Inr (nw, nh)
     \<and> \<bar>nw - \<lfloor>of_int 100 * (29 / 100 :: rat)\<rfloor>\<bar> \<le> 1
     \<and> \<bar>nh - \<lfloor>of_int 100 * (29 / 100 :: rat)\<rfloor>\<bar> \<le> 1"
proof -
  have 1: "endswith_chr ''29%'' CHR ''%''" by code_simp
  have "float_of_str ''29'' = Inr (Finite 29)" by code_simp
  then have 2: "float_of_str (butlast ''29%'') = Inr (Finite 29)" by simp
  show ?thesis
    using parse_resize_percent_within_one [OF 1 2, of 100 100] by simp
qed

end
